theory Spec2Isabelle
  imports Main "HOL-Library.List_Lexorder" "HOL-Library.Product_Lexorder" "HOL-Library.Sublist"
begin

section \<open>Python strings\<close>

text \<open>
  A Python \<open>str\<close> is a sequence of Unicode code points: \<open>len\<close> counts code points, a
  slice takes code points, and \<open>str\<close> values are ordered lexicographically by code point.
  A string is therefore a list of code points, each a natural number, and the order on
  strings is the lexicographic order on lists. ASCII literals of the source are written
  \<open>u ''...''\<close>; the four non-ASCII characters of the source's literals are named below.
\<close>

type_synonym ustr = "nat list"

definition u :: "string \<Rightarrow> ustr" where
  "u s = map of_char s"

definition em_dash :: ustr where
  "em_dash = [8212]"

definition middle_dot :: ustr where
  "middle_dot = [183]"

definition right_arrow :: ustr where
  "right_arrow = [8594]"

definition ellipsis :: ustr where
  "ellipsis = [8230]"

definition nl :: ustr where
  "nl = [10]"

text \<open>\<open>sep.join(xs)\<close>.\<close>

fun str_join :: "ustr \<Rightarrow> ustr list \<Rightarrow> ustr" where
  "str_join sep [] = []"
| "str_join sep [x] = x"
| "str_join sep (x # y # ys) = x @ sep @ str_join sep (y # ys)"

text \<open>
  The line boundaries of \<open>str.splitlines\<close>: LF, VT, FF, CR, FS, GS, RS, NEL, LS and PS;
  a CR directly followed by LF is one boundary.
\<close>

definition is_linebreak :: "nat \<Rightarrow> bool" where
  "is_linebreak c = (c \<in> {10, 11, 12, 13, 28, 29, 30, 133, 8232, 8233})"

text \<open>
  \<open>s.splitlines()\<close>, with \<open>cur\<close> the characters of the line being read. A line is
  produced at each boundary; the characters after the last boundary are a line only when
  there are some, so the empty string has no lines and a final boundary adds none.
\<close>

fun splitlines_from :: "ustr \<Rightarrow> ustr \<Rightarrow> ustr list" where
  "splitlines_from cur [] = (if cur = [] then [] else [cur])"
| "splitlines_from cur [c] =
     (if is_linebreak c then [cur] else [cur @ [c]])"
| "splitlines_from cur (c # d # cs) =
     (if c = 13 \<and> d = 10 then cur # splitlines_from [] cs
      else if is_linebreak c then cur # splitlines_from [] (d # cs)
      else splitlines_from (cur @ [c]) (d # cs))"

definition splitlines :: "ustr \<Rightarrow> ustr list" where
  "splitlines s = splitlines_from [] s"

text \<open>The characters that \<open>str.strip\<close> and \<open>str.rstrip\<close> remove (\<open>str.isspace\<close>).\<close>

definition is_space :: "nat \<Rightarrow> bool" where
  "is_space c = (c \<in> {9, 10, 11, 12, 13, 28, 29, 30, 31, 32, 133, 160, 5760,
                        8232, 8233, 8239, 8287, 12288} \<or> (8192 \<le> c \<and> c \<le> 8202))"

definition rstrip :: "ustr \<Rightarrow> ustr" where
  "rstrip s = rev (dropWhile is_space (rev s))"

definition strip :: "ustr \<Rightarrow> ustr" where
  "strip s = dropWhile is_space (rstrip s)"

text \<open>\<open>pat in s\<close> for two strings: \<open>pat\<close> occurs in \<open>s\<close> as a contiguous run.\<close>

fun str_contains :: "ustr \<Rightarrow> ustr \<Rightarrow> bool" where
  "str_contains pat [] = (pat = [])"
| "str_contains pat (c # cs) = (prefix pat (c # cs) \<or> str_contains pat cs)"

text \<open>\<open>str(n)\<close> for an integer: decimal digits, with a minus sign when negative.\<close>

function str_nat :: "nat \<Rightarrow> ustr" where
  "str_nat n = (if n < 10 then [48 + n] else str_nat (n div 10) @ [48 + n mod 10])"
  by pat_completeness auto
termination
  by (relation "measure (\<lambda>n. n)") auto

declare str_nat.simps [simp del]

definition str_int :: "int \<Rightarrow> ustr" where
  "str_int i = (if i < 0 then 45 # str_nat (nat (- i)) else str_nat (nat i))"

text \<open>\<open>str(x)\<close> for an \<open>Optional[int]\<close>, as an f-string formats it.\<close>

definition str_opt_int :: "int option \<Rightarrow> ustr" where
  "str_opt_int x = (case x of None \<Rightarrow> u ''None'' | Some i \<Rightarrow> str_int i)"

text \<open>\<open>v or d\<close> where \<open>v\<close> is a string or \<open>None\<close>: the empty string is falsy.\<close>

definition or_str :: "ustr option \<Rightarrow> ustr \<Rightarrow> ustr" where
  "or_str v d = (case v of None \<Rightarrow> d | Some s \<Rightarrow> if s = [] then d else s)"

text \<open>\<open>d.get(k, default)\<close> once the lookup has given \<open>v\<close>.\<close>

definition get_default :: "'a option \<Rightarrow> 'a \<Rightarrow> 'a" where
  "get_default v d = (case v of None \<Rightarrow> d | Some x \<Rightarrow> x)"

text \<open>\<open>xs[-n:]\<close> for \<open>n > 0\<close>: the start index \<open>len(xs) - n\<close> is clamped at 0.\<close>

definition slice_last :: "nat \<Rightarrow> 'a list \<Rightarrow> 'a list" where
  "slice_last n xs = drop (nat (max (int (length xs) - int n) 0)) xs"


section \<open>fetcher.py: the pull request record\<close>

record PRInfo =
  pr_owner :: ustr
  pr_repo :: ustr
  pr_number :: int
  pr_title :: ustr
  pr_author :: ustr
  pr_url :: ustr
  pr_base_branch :: ustr
  pr_head_branch :: ustr
  pr_state :: ustr
  pr_body :: ustr


section \<open>The raw dictionaries of the review API\<close>

text \<open>
  A raw \<open>dict\<close> is a record with one optional field for each key the code reads;
  \<open>None\<close> is a key that is missing. A key that is present holds a value of the type that
  the dataclass \<open>ReviewComment\<close> declares for the field it fills (an integer identifier, a
  string path, ...). For the keys read with \<open>.get(k)\<close> or \<open>.get(k) or d\<close> a JSON
  \<open>null\<close> behaves as a missing key and is \<open>None\<close> as well.
\<close>

record raw_user =
  login :: "ustr option"

record raw_comment =
  raw_id :: "int option"
  raw_user :: "raw_user option"
  raw_body :: "ustr option"
  raw_path :: "ustr option"
  raw_original_line :: "int option"
  raw_line :: "int option"
  raw_diff_hunk :: "ustr option"
  raw_created_at :: "ustr option"
  raw_html_url :: "ustr option"
  raw_in_reply_to_id :: "int option"
  raw_author_association :: "ustr option"

record raw_issue_comment =
  ic_user :: "raw_user option"
  ic_author_association :: "ustr option"
  ic_created_at :: "ustr option"
  ic_body :: "ustr option"
  ic_html_url :: "ustr option"

record raw_review =
  rv_state :: "ustr option"
  rv_user :: "raw_user option"
  rv_submitted_at :: "ustr option"
  rv_body :: "ustr option"

datatype py_error = KeyError string


section \<open>formatter.py: the data model\<close>

text \<open>
  The fields of the dataclass \<open>ReviewComment\<close>, prefixed with \<open>c_\<close> (\<open>id\<close> is a constant
  of HOL, and the pull request has an \<open>author\<close> and a \<open>body\<close> of its own).
\<close>

record ReviewComment =
  c_id :: int
  c_author :: ustr
  c_body :: ustr
  c_path :: ustr
  c_line :: "int option"
  c_diff_hunk :: ustr
  c_created_at :: ustr
  c_html_url :: ustr
  c_in_reply_to_id :: "int option"
  c_is_suggestion :: bool
  c_author_association :: ustr

record CommentThread =
  root :: ReviewComment
  replies :: "ReviewComment list"

text \<open>The property \<open>CommentThread.is_resolved\<close>: \<open>len(self.replies) > 0\<close>.\<close>

definition is_resolved :: "CommentThread \<Rightarrow> bool" where
  "is_resolved t = (length (replies t) > 0)"


section \<open>formatter.py: helpers\<close>

definition clean_body :: "ustr \<Rightarrow> ustr" where
  "clean_body body = strip (str_join nl (map rstrip (splitlines body)))"

definition is_suggestion :: "ustr \<Rightarrow> bool" where
  "is_suggestion body = str_contains (u ''```suggestion'') body"

definition extract_diff_hunk_tail :: "ustr \<Rightarrow> nat \<Rightarrow> ustr" where
  "extract_diff_hunk_tail diff_hunk context_lines =
     (let lines = splitlines diff_hunk
      in if length lines > context_lines
         then str_join nl (slice_last context_lines lines)
         else diff_hunk)"


section \<open>formatter.py: building the threads\<close>

text \<open>
  The constructor call at the head of the loop of \<open>_build_threads\<close>. The keyword
  arguments are evaluated in the order written: \<open>raw["id"]\<close> and
  \<open>raw["user"]["login"]\<close> raise \<open>KeyError\<close> on a missing key, every other key is read
  with \<open>.get\<close>. \<open>raw.get("original_line") or raw.get("line")\<close> takes the second value
  when the first is \<open>None\<close> or 0.
\<close>

definition make_comment :: "raw_comment \<Rightarrow> py_error + ReviewComment" where
  "make_comment raw =
     (case raw_id raw of
        None \<Rightarrow> Inl (KeyError ''id'')
      | Some i \<Rightarrow>
          (case raw_user raw of
             None \<Rightarrow> Inl (KeyError ''user'')
           | Some usr \<Rightarrow>
               (case login usr of
                  None \<Rightarrow> Inl (KeyError ''login'')
                | Some a \<Rightarrow>
                    Inr \<lparr> c_id = i,
                          c_author = a,
                          c_body = clean_body (or_str (raw_body raw) []),
                          c_path = get_default (raw_path raw) [],
                          c_line = (case raw_original_line raw of
                                      None \<Rightarrow> raw_line raw
                                    | Some n \<Rightarrow> if n = 0 then raw_line raw else Some n),
                          c_diff_hunk = get_default (raw_diff_hunk raw) [],
                          c_created_at = get_default (raw_created_at raw) [],
                          c_html_url = get_default (raw_html_url raw) [],
                          c_in_reply_to_id = raw_in_reply_to_id raw,
                          c_is_suggestion = is_suggestion (or_str (raw_body raw) []),
                          c_author_association = get_default (raw_author_association raw) [] \<rparr>)))"

text \<open>
  The three variables of the first loop: \<open>by_id\<close>, \<open>roots\<close> and \<open>replies\<close> (the
  dictionary from a parent identifier to the list of its replies).
\<close>

type_synonym build_state =
  "(int \<rightharpoonup> ReviewComment) \<times> ReviewComment list \<times> (int \<rightharpoonup> ReviewComment list)"

fun build_loop :: "raw_comment list \<Rightarrow> build_state \<Rightarrow> py_error + build_state" where
  "build_loop [] st = Inr st"
| "build_loop (raw # raws) (by_id, roots, reps) =
     (case make_comment raw of
        Inl e \<Rightarrow> Inl e
      | Inr comment \<Rightarrow>
          (case c_in_reply_to_id comment of
             None \<Rightarrow>
               build_loop raws (by_id(c_id comment \<mapsto> comment), roots @ [comment], reps)
           | Some p \<Rightarrow>
               build_loop raws
                 (by_id(c_id comment \<mapsto> comment), roots,
                  reps(p \<mapsto> get_default (reps p) [] @ [comment]))))"

text \<open>The sort key \<open>(t.root.path, t.root.line or 0)\<close>.\<close>

definition thread_key :: "CommentThread \<Rightarrow> ustr \<times> int" where
  "thread_key t =
     (c_path (root t), (case c_line (root t) of None \<Rightarrow> 0 | Some n \<Rightarrow> if n = 0 then 0 else n))"

text \<open>The second loop: one thread for each root, with \<open>replies.get(root.id, [])\<close>.\<close>

definition attach_replies ::
  "(int \<rightharpoonup> ReviewComment list) \<Rightarrow> ReviewComment list \<Rightarrow> CommentThread list" where
  "attach_replies reps roots =
     map (\<lambda>r. \<lparr> root = r, replies = get_default (reps (c_id r)) [] \<rparr>) roots"

text \<open>
  \<open>_build_threads\<close>. \<open>list.sort(key=...)\<close> sorts ascending by the key and is stable;
  \<open>sort_key\<close> is the stable sort of the list library. Tuples are compared
  lexicographically, the paths as strings and the lines as integers.
\<close>

definition build_threads :: "raw_comment list \<Rightarrow> py_error + CommentThread list" where
  "build_threads raw_comments =
     (case build_loop raw_comments (Map.empty, [], Map.empty) of
        Inl e \<Rightarrow> Inl e
      | Inr (by_id, roots, reps) \<Rightarrow> Inr (sort_key thread_key (attach_replies reps roots)))"


section \<open>formatter.py: rendering\<close>

text \<open>
  \<open>str.lower\<close> maps each string through the case tables of the Python runtime, which
  are not part of the repository; the rendering functions take it as the parameter
  \<open>lower\<close>.
\<close>

definition render_comment_body :: "(ustr \<Rightarrow> ustr) \<Rightarrow> ReviewComment \<Rightarrow> ustr \<Rightarrow> ustr" where
  "render_comment_body lower comment indent =
     str_join nl
       ([indent @ u ''**@'' @ c_author comment @ u ''** ('' @ lower (c_author_association comment)
           @ u '') '' @ middle_dot @ u '' '' @ take 10 (c_created_at comment),
         indent @ u ''[view on GitHub]('' @ c_html_url comment @ u '')'',
         []]
        @ map (\<lambda>line. indent @ line) (splitlines (c_body comment)))"

definition thread_status :: "CommentThread \<Rightarrow> ustr" where
  "thread_status thread = (if is_resolved thread then u ''addressed'' else u ''**OPEN**'')"

definition thread_heading :: "CommentThread \<Rightarrow> int \<Rightarrow> ustr" where
  "thread_heading thread index =
     u ''### Thread '' @ str_int index @ u '' '' @ em_dash @ u '' `'' @ c_path (root thread)
       @ u ''` (line '' @ str_opt_int (c_line (root thread)) @ u '') ['' @ thread_status thread
       @ u '']''"

definition render_thread :: "(ustr \<Rightarrow> ustr) \<Rightarrow> CommentThread \<Rightarrow> int \<Rightarrow> ustr" where
  "render_thread lower thread index =
     str_join nl
       ([thread_heading thread index,
         [],
         u ''**Diff context:**'',
         u ''```diff'',
         extract_diff_hunk_tail (c_diff_hunk (root thread)) 6,
         u ''```'',
         [],
         render_comment_body lower (root thread) [],
         []]
        @ (if replies thread \<noteq> []
           then [u ''**Replies:**'', []]
                @ concat (map (\<lambda>reply. [render_comment_body lower reply (u ''> ''), u ''>'', []])
                            (replies thread))
           else []))"

text \<open>
  The filter of \<open>format_pr\<close>: with the mode \<open>"unresolved"\<close> the threads that are not
  resolved are kept, with any other mode the list is left as it is.
\<close>

definition filter_threads :: "CommentThread list \<Rightarrow> ustr \<Rightarrow> CommentThread list" where
  "filter_threads threads filter_mode =
     (if filter_mode = u ''unresolved''
      then filter (\<lambda>t. \<not> is_resolved t) threads
      else threads)"

definition header_lines :: "PRInfo \<Rightarrow> ustr \<Rightarrow> ustr list" where
  "header_lines pr_info filter_mode =
     [u ''# PR #'' @ str_int (pr_number pr_info) @ u '': '' @ pr_title pr_info,
      [],
      u ''- **Repository:** '' @ pr_owner pr_info @ u ''/'' @ pr_repo pr_info,
      u ''- **Author:** @'' @ pr_author pr_info,
      u ''- **State:** '' @ pr_state pr_info,
      u ''- **Branch:** `'' @ pr_head_branch pr_info @ u ''` '' @ right_arrow @ u '' `''
        @ pr_base_branch pr_info @ u ''`'',
      u ''- **URL:** '' @ pr_url pr_info,
      u ''- **Filter:** '' @ filter_mode,
      []]"

text \<open>\<open>r.get("user", {}).get("login")\<close>: \<open>None\<close> when either key is missing.\<close>

definition user_login :: "raw_user option \<Rightarrow> ustr option" where
  "user_login usr = (case usr of None \<Rightarrow> None | Some x \<Rightarrow> login x)"

definition is_meaningful :: "raw_review \<Rightarrow> bool" where
  "is_meaningful r =
     (rv_state r \<in> {Some (u ''APPROVED''), Some (u ''CHANGES_REQUESTED''), Some (u ''DISMISSED'')}
      \<and> user_login (rv_user r) \<noteq> Some (u ''ghost''))"

text \<open>The lines that the loop over \<open>meaningful_reviews\<close> appends for one review.\<close>

definition review_entry :: "raw_review \<Rightarrow> ustr list" where
  "review_entry r =
     (let reviewer = get_default (user_login (rv_user r)) (u ''unknown'');
          state = get_default (rv_state r) [];
          submitted = take 10 (or_str (rv_submitted_at r) []);
          body = clean_body (or_str (rv_body r) [])
      in [u ''- **@'' @ reviewer @ u ''** '' @ em_dash @ u '' `'' @ state @ u ''` (''
            @ submitted @ u '')'']
         @ (if body \<noteq> []
            then [u ''  > '' @ take 200 body @ (if length body > 200 then ellipsis else [])]
            else []))"

definition review_lines :: "raw_review list \<Rightarrow> ustr list" where
  "review_lines reviews =
     (let meaningful_reviews = filter is_meaningful reviews
      in if meaningful_reviews \<noteq> []
         then [u ''## Review Summaries'', []] @ concat (map review_entry meaningful_reviews) @ [[]]
         else [])"

text \<open>
  The loop over the threads, with its two variables \<open>current_file\<close> (\<open>None\<close> before the
  first thread) and \<open>thread_index\<close>.
\<close>

fun render_threads ::
  "(ustr \<Rightarrow> ustr) \<Rightarrow> CommentThread list \<Rightarrow> ustr option \<Rightarrow> int \<Rightarrow> ustr list" where
  "render_threads lower [] current_file thread_index = []"
| "render_threads lower (thread # threads) current_file thread_index =
     (if Some (c_path (root thread)) \<noteq> current_file
      then [u ''---'', u ''## File: `'' @ c_path (root thread) @ u ''`'', []]
           @ [render_thread lower thread thread_index]
           @ render_threads lower threads (Some (c_path (root thread))) (thread_index + 1)
      else [render_thread lower thread thread_index]
           @ render_threads lower threads current_file (thread_index + 1))"

definition inline_lines :: "(ustr \<Rightarrow> ustr) \<Rightarrow> CommentThread list \<Rightarrow> ustr \<Rightarrow> ustr list" where
  "inline_lines lower threads filter_mode =
     [u ''## Inline Review Comments'', []]
     @ (if threads = []
        then [u ''_No inline review comments found for the selected filter._'', []]
        else [u ''_'' @ str_int (int (length threads)) @ u '' thread(s) shown (''
                @ (if filter_mode = u ''unresolved'' then u ''open only''
                   else u ''all, including addressed'')
                @ u '')._'',
              []]
             @ render_threads lower threads None 1)"

definition issue_entry :: "(ustr \<Rightarrow> ustr) \<Rightarrow> raw_issue_comment \<Rightarrow> ustr list" where
  "issue_entry lower c =
     (let author = get_default (user_login (ic_user c)) (u ''unknown'');
          association = lower (get_default (ic_author_association c) []);
          created = take 10 (or_str (ic_created_at c) []);
          body = clean_body (or_str (ic_body c) []);
          html_url = get_default (ic_html_url c) []
      in [u ''**@'' @ author @ u ''** ('' @ association @ u '') '' @ middle_dot @ u '' ''
            @ created @ u '' '' @ middle_dot @ u '' [view]('' @ html_url @ u '')'',
          [],
          body,
          []])"

definition general_lines :: "(ustr \<Rightarrow> ustr) \<Rightarrow> raw_issue_comment list \<Rightarrow> ustr list" where
  "general_lines lower issue_comments =
     (if issue_comments \<noteq> []
      then [u ''---'', u ''## General PR Comments'', []]
           @ concat (map (issue_entry lower) issue_comments)
      else [])"

text \<open>The list \<open>lines\<close> of \<open>format_pr\<close> as it stands before the final join.\<close>

definition format_pr_lines ::
  "(ustr \<Rightarrow> ustr) \<Rightarrow> PRInfo \<Rightarrow> raw_comment list \<Rightarrow> raw_issue_comment list \<Rightarrow> raw_review list
     \<Rightarrow> ustr \<Rightarrow> py_error + ustr list" where
  "format_pr_lines lower pr_info review_comments issue_comments reviews filter_mode =
     (case build_threads review_comments of
        Inl e \<Rightarrow> Inl e
      | Inr all_threads \<Rightarrow>
          (let threads = filter_threads all_threads filter_mode
           in Inr (header_lines pr_info filter_mode
                   @ review_lines reviews
                   @ inline_lines lower threads filter_mode
                   @ general_lines lower issue_comments)))"

definition format_pr ::
  "(ustr \<Rightarrow> ustr) \<Rightarrow> PRInfo \<Rightarrow> raw_comment list \<Rightarrow> raw_issue_comment list \<Rightarrow> raw_review list
     \<Rightarrow> ustr \<Rightarrow> py_error + ustr" where
  "format_pr lower pr_info review_comments issue_comments reviews filter_mode =
     (case format_pr_lines lower pr_info review_comments issue_comments reviews filter_mode of
        Inl e \<Rightarrow> Inl e
      | Inr lines \<Rightarrow> Inr (str_join nl lines))"


section \<open>Vocabulary of the statements\<close>

text \<open>
  A root is a comment with no parent; the replies to an identifier are the comments that
  name it as their parent, in the order of the list; the thread of a root carries the
  replies to the root's identifier.
\<close>

definition is_root :: "ReviewComment \<Rightarrow> bool" where
  "is_root c = (c_in_reply_to_id c = None)"

definition replies_to :: "int \<Rightarrow> ReviewComment list \<Rightarrow> ReviewComment list" where
  "replies_to p cs = filter (\<lambda>c. c_in_reply_to_id c = Some p) cs"

definition mk_thread :: "ReviewComment list \<Rightarrow> ReviewComment \<Rightarrow> CommentThread" where
  "mk_thread cs r = \<lparr> root = r, replies = replies_to (c_id r) cs \<rparr>"

text \<open>The second component of the sort key: the line, or 0 when there is none.\<close>

definition line_or_0 :: "ReviewComment \<Rightarrow> int" where
  "line_or_0 c = (case c_line c of None \<Rightarrow> 0 | Some n \<Rightarrow> n)"

text \<open>
  The strict lexicographic order of two strings: at the first position where they differ
  the smaller code point decides, and a proper prefix is smaller.
\<close>

fun str_less :: "ustr \<Rightarrow> ustr \<Rightarrow> bool" where
  "str_less [] [] = False"
| "str_less [] (y # ys) = True"
| "str_less (x # xs) [] = False"
| "str_less (x # xs) (y # ys) = (x < y \<or> (x = y \<and> str_less xs ys))"

text \<open>
  The order of two sort keys: the first path is smaller in the lexicographic order, or the
  paths are equal and the first line is at most the second.
\<close>

definition key_le :: "ReviewComment \<Rightarrow> ReviewComment \<Rightarrow> bool" where
  "key_le a b =
     (str_less (c_path a) (c_path b)
      \<or> (c_path a = c_path b \<and> line_or_0 a \<le> line_or_0 b))"

text \<open>
  Sample data: seven raw comments by one author. Comments 1, 3, 6 and 7 are roots, 2 and
  5 reply to 1, and 4 replies to 99, an identifier that no comment has.
\<close>

definition sample_raw :: "int \<Rightarrow> ustr \<Rightarrow> int option \<Rightarrow> int option \<Rightarrow> raw_comment" where
  "sample_raw i p l parent =
     \<lparr> raw_id = Some i, raw_user = Some \<lparr> login = Some (u ''alice'') \<rparr>,
       raw_body = Some (u ''fix''), raw_path = Some p, raw_original_line = l, raw_line = None,
       raw_diff_hunk = None, raw_created_at = Some (u ''2024-01-02T03:04:05Z''),
       raw_html_url = None, raw_in_reply_to_id = parent,
       raw_author_association = Some (u ''MEMBER'') \<rparr>"

definition sample_comment :: "int \<Rightarrow> ustr \<Rightarrow> int option \<Rightarrow> int option \<Rightarrow> ReviewComment" where
  "sample_comment i p l parent =
     \<lparr> c_id = i, c_author = u ''alice'', c_body = u ''fix'', c_path = p, c_line = l,
       c_diff_hunk = [], c_created_at = u ''2024-01-02T03:04:05Z'', c_html_url = [],
       c_in_reply_to_id = parent, c_is_suggestion = False,
       c_author_association = u ''MEMBER'' \<rparr>"

definition sample_raws :: "raw_comment list" where
  "sample_raws =
     [sample_raw 1 (u ''b.py'') (Some 5) None,
      sample_raw 2 (u ''b.py'') (Some 5) (Some 1),
      sample_raw 3 (u ''a.py'') (Some 7) None,
      sample_raw 4 (u ''a.py'') (Some 7) (Some 99),
      sample_raw 5 (u ''b.py'') (Some 5) (Some 1),
      sample_raw 6 (u ''a.py'') (Some 7) None,
      sample_raw 7 (u ''a.py'') None None]"

definition sample_comments :: "ReviewComment list" where
  "sample_comments =
     [sample_comment 1 (u ''b.py'') (Some 5) None,
      sample_comment 2 (u ''b.py'') (Some 5) (Some 1),
      sample_comment 3 (u ''a.py'') (Some 7) None,
      sample_comment 4 (u ''a.py'') (Some 7) (Some 99),
      sample_comment 5 (u ''b.py'') (Some 5) (Some 1),
      sample_comment 6 (u ''a.py'') (Some 7) None,
      sample_comment 7 (u ''a.py'') None None]"

definition sample_threads :: "CommentThread list" where
  "sample_threads =
     [\<lparr> root = sample_comment 7 (u ''a.py'') None None, replies = [] \<rparr>,
      \<lparr> root = sample_comment 3 (u ''a.py'') (Some 7) None, replies = [] \<rparr>,
      \<lparr> root = sample_comment 6 (u ''a.py'') (Some 7) None, replies = [] \<rparr>,
      \<lparr> root = sample_comment 1 (u ''b.py'') (Some 5) None,
        replies = [sample_comment 2 (u ''b.py'') (Some 5) (Some 1),
                   sample_comment 5 (u ''b.py'') (Some 5) (Some 1)] \<rparr>]"

text \<open>
  The lines that the loop over the threads appends for the thread at position \<open>i\<close>
  (counted from 0) of the list: a file heading when the thread opens a new group, then the
  rendered thread with the index \<open>i + 1\<close>. A group is new at the first thread and
  wherever the path of the root differs from the path of the previous root.
\<close>

definition file_heading :: "ustr \<Rightarrow> ustr list" where
  "file_heading p = [u ''---'', u ''## File: `'' @ p @ u ''`'', []]"

definition new_group :: "CommentThread list \<Rightarrow> nat \<Rightarrow> bool" where
  "new_group ts i = (i = 0 \<or> c_path (root (ts ! i)) \<noteq> c_path (root (ts ! (i - 1))))"

definition thread_entry :: "(ustr \<Rightarrow> ustr) \<Rightarrow> CommentThread list \<Rightarrow> nat \<Rightarrow> ustr list" where
  "thread_entry lower ts i =
     (if new_group ts i then file_heading (c_path (root (ts ! i))) else [])
     @ [render_thread lower (ts ! i) (int i + 1)]"

text \<open>
  The same lines when the loop starts from the state \<open>current_file = cur\<close> and
  \<open>thread_index = idx\<close>.
\<close>

definition entry_from ::
  "(ustr \<Rightarrow> ustr) \<Rightarrow> CommentThread list \<Rightarrow> ustr option \<Rightarrow> int \<Rightarrow> nat \<Rightarrow> ustr list" where
  "entry_from lower ts cur idx i =
     (if (case i of 0 \<Rightarrow> Some (c_path (root (ts ! 0))) \<noteq> cur
                  | Suc k \<Rightarrow> c_path (root (ts ! i)) \<noteq> c_path (root (ts ! k)))
      then file_heading (c_path (root (ts ! i))) else [])
     @ [render_thread lower (ts ! i) (idx + int i)]"


text \<open>
  The document around the filter mode: the text up to the label of the header's filter
  line, and the text after the mode when every thread is rendered.
\<close>

definition doc_prefix :: "PRInfo \<Rightarrow> ustr" where
  "doc_prefix pr_info = str_join nl (take 7 (header_lines pr_info [])) @ nl @ u ''- **Filter:** ''"

definition doc_suffix ::
  "(ustr \<Rightarrow> ustr) \<Rightarrow> CommentThread list \<Rightarrow> raw_issue_comment list \<Rightarrow> raw_review list \<Rightarrow> ustr" where
  "doc_suffix lower threads issue_comments reviews =
     nl @ str_join nl ([] # review_lines reviews @ inline_lines lower threads (u ''all'')
                            @ general_lines lower issue_comments)"


definition sample_pr :: PRInfo where
  "sample_pr =
     \<lparr> pr_owner = u ''octo'', pr_repo = u ''demo'', pr_number = 7, pr_title = u ''Fix parser'',
       pr_author = u ''alice'', pr_url = u ''https://example.org/octo/demo/pull/7'',
       pr_base_branch = u ''main'', pr_head_branch = u ''fix'', pr_state = u ''open'',
       pr_body = [] \<rparr>"


section \<open>Resolution and filtering\<close>

lemma u_all_neq_unresolved: "u ''all'' \<noteq> u ''unresolved''"
  by (simp add: u_def)

text \<open>
  Claim C3. A thread is resolved exactly when its list of replies is not empty, that is
  when the length of the list is greater than zero. The predicate is a function of the
  thread alone.
\<close>

theorem is_resolved_iff:
  "is_resolved t = (0 < length (replies t)) \<and> (is_resolved t \<longleftrightarrow> replies t \<noteq> [])"
  by (simp add: is_resolved_def)

text \<open>
  Claim C4. With the mode \<open>"all"\<close> the filter returns the list of threads as it is.
  With the mode \<open>"unresolved"\<close> it returns exactly the threads that have no reply, and
  the result is a subsequence of the input, so the relative order is kept.
\<close>

theorem filter_threads_modes:
  "filter_threads ts (u ''all'') = ts
   \<and> filter_threads ts (u ''unresolved'') = filter (\<lambda>t. length (replies t) = 0) ts
   \<and> subseq (filter_threads ts (u ''unresolved'')) ts"
  by (simp add: filter_threads_def is_resolved_def u_all_neq_unresolved)


section \<open>The diff excerpt\<close>







section \<open>The thread builder\<close>

subsection \<open>The conversion of the raw comments\<close>

lemma make_comment_id: "make_comment raw = Inr c \<Longrightarrow> raw_id raw = Some (c_id c)"
  by (auto simp: make_comment_def split: option.splits)

lemma make_comment_parent:
  "make_comment raw = Inr c \<Longrightarrow> c_in_reply_to_id c = raw_in_reply_to_id raw"
  by (auto simp: make_comment_def split: option.splits)

lemma make_comments_ids:
  "map make_comment raws = map Inr cs \<Longrightarrow> map raw_id raws = map (\<lambda>c. Some (c_id c)) cs"
proof (induction raws arbitrary: cs)
  case Nil
  then show ?case by simp
next
  case (Cons raw raws)
  then show ?case by (cases cs) (auto dest: make_comment_id)
qed

lemma make_comments_total:
  "\<forall>raw \<in> set raws. raw_id raw \<noteq> None \<and> (\<exists>usr. raw_user raw = Some usr \<and> login usr \<noteq> None)
     \<Longrightarrow> \<exists>cs. map make_comment raws = map Inr cs"
proof (induction raws)
  case Nil
  then show ?case by simp
next
  case (Cons raw raws)
  then obtain cs where cs: "map make_comment raws = map Inr cs" by auto
  from Cons.prems obtain c where "make_comment raw = Inr c"
    by (auto simp: make_comment_def)
  with cs have "map make_comment (raw # raws) = map Inr (c # cs)" by simp
  then show ?case by blast
qed

lemma make_comments_nth:
  "map make_comment raws = map Inr cs \<Longrightarrow> raw \<in> set raws
     \<Longrightarrow> \<exists>c \<in> set cs. make_comment raw = Inr c"
proof (induction raws arbitrary: cs)
  case Nil
  then show ?case by simp
next
  case (Cons a raws)
  then show ?case by (cases cs) auto
qed

lemma make_comments_back:
  "map make_comment raws = map Inr cs \<Longrightarrow> c \<in> set cs
     \<Longrightarrow> \<exists>raw \<in> set raws. make_comment raw = Inr c"
proof (induction raws arbitrary: cs)
  case Nil
  then show ?case by simp
next
  case (Cons a raws)
  then show ?case by (cases cs) auto
qed

lemma build_loop_error:
  "build_loop raws st = Inl e \<Longrightarrow> \<exists>raw \<in> set raws. make_comment raw = Inl e"
proof (induction raws arbitrary: st)
  case Nil then show ?case by simp
next
  case (Cons raw raws)
  obtain a b c where st: "st = (a, b, c)" by (cases st)
  from Cons show ?case unfolding st
    by (auto split: sum.splits option.splits)
qed

subsection \<open>The result of the two loops\<close>

lemma build_loop_result:
  "map make_comment raws = map Inr cs \<Longrightarrow>
   \<exists>by_id' reps'.
     build_loop raws (by_id, roots, reps) = Inr (by_id', roots @ filter is_root cs, reps')
     \<and> (\<forall>p. get_default (reps' p) [] = get_default (reps p) [] @ replies_to p cs)"
proof (induction raws arbitrary: cs by_id roots reps)
  case Nil
  then show ?case by (simp add: replies_to_def)
next
  case (Cons raw raws)
  then obtain c cs' where cs: "cs = c # cs'" and c: "make_comment raw = Inr c"
    and rest: "map make_comment raws = map Inr cs'"
    by (cases cs) auto
  show ?case
  proof (cases "c_in_reply_to_id c")
    case None
    from Cons.IH [OF rest, of "by_id(c_id c \<mapsto> c)" "roots @ [c]" reps]
    show ?thesis using None c cs by (simp add: is_root_def replies_to_def fun_upd_def)
  next
    case (Some q)
    from Cons.IH [OF rest, of "by_id(c_id c \<mapsto> c)" roots "reps(q \<mapsto> get_default (reps q) [] @ [c])"]
    show ?thesis using Some c cs by (auto simp: is_root_def replies_to_def get_default_def fun_upd_def)
  qed
qed

lemma build_threads_result:
  assumes "map make_comment raws = map Inr cs"
  shows "build_threads raws =
           Inr (sort_key thread_key
                  (map (mk_thread cs) (filter is_root cs)))"
proof -
  from build_loop_result [OF assms, of Map.empty "[]" Map.empty]
  obtain by_id' reps' where
    loop: "build_loop raws (Map.empty, [], Map.empty) = Inr (by_id', filter is_root cs, reps')"
    and reps: "\<And>p. get_default (reps' p) [] = replies_to p cs"
    by (auto simp: get_default_def)
  show ?thesis
    by (simp add: build_threads_def loop attach_replies_def reps mk_thread_def [abs_def])
qed

lemma thread_key_eq: "thread_key t = (c_path (root t), line_or_0 (root t))"
  by (simp add: thread_key_def line_or_0_def split: option.splits)

lemma str_less_iff: "str_less a b \<longleftrightarrow> a < b"
  by (induction a b rule: str_less.induct) simp_all

lemma thread_key_le: "thread_key a \<le> thread_key b \<longleftrightarrow> key_le (root a) (root b)"
  by (auto simp: thread_key_eq key_le_def less_eq_prod_def str_less_iff)

lemma roots_of_mk_thread:
  "map root (filter (\<lambda>t. P (root t)) (map (mk_thread ds) xs)) = filter P xs"
  by (induction xs) (simp_all add: mk_thread_def)

subsection \<open>The sample data\<close>

lemma clean_body_fix: "clean_body (u ''fix'') = u ''fix''"
  by (simp add: clean_body_def u_def splitlines_def is_linebreak_def rstrip_def strip_def
      is_space_def nl_def)

lemma is_suggestion_fix: "\<not> is_suggestion (u ''fix'')"
  by (simp add: is_suggestion_def u_def)

lemma u_fix_nonempty: "u ''fix'' \<noteq> []"
  by (simp add: u_def)

lemma make_comment_sample:
  "l \<noteq> Some 0 \<Longrightarrow> make_comment (sample_raw i p l parent) = Inr (sample_comment i p l parent)"
  by (auto simp: make_comment_def sample_raw_def sample_comment_def or_str_def get_default_def
      clean_body_fix is_suggestion_fix u_fix_nonempty split: option.splits)

lemma make_comment_samples: "map make_comment sample_raws = map Inr sample_comments"
  by (simp add: sample_raws_def sample_comments_def make_comment_sample)

lemma sample_ids_distinct: "distinct (map raw_id sample_raws)"
  by (simp add: sample_raws_def sample_raw_def)

lemma build_threads_sample: "build_threads sample_raws = Inr sample_threads"
  apply (simp add: build_threads_result [OF make_comment_samples])
  apply (simp add: sample_comments_def sample_threads_def is_root_def replies_to_def mk_thread_def
      sample_comment_def thread_key_eq line_or_0_def u_def less_eq_prod_def)
  done

lemma sample_raws_wf:
  "\<forall>r \<in> set sample_raws. raw_id r \<noteq> None \<and> (\<exists>usr. raw_user r = Some usr \<and> login usr \<noteq> None)"
  by (simp add: sample_raws_def sample_raw_def)

lemma sample_raw_4_dangling:
  "\<forall>r \<in> set sample_raws. raw_in_reply_to_id r = None \<longrightarrow> raw_id r \<noteq> Some 99"
  by (simp add: sample_raws_def sample_raw_def)

lemma sample_raw_4_mem: "sample_raw 4 (u ''a.py'') (Some 7) (Some 99) \<in> set sample_raws"
  by (simp add: sample_raws_def)

lemma sample_raw_4_parent:
  "raw_in_reply_to_id (sample_raw 4 (u ''a.py'') (Some 7) (Some 99)) = Some 99"
  by (simp add: sample_raw_def)

subsection \<open>Structure of the threads\<close>

text \<open>
  Claim C1. Let every raw comment convert to a comment (\<open>cs\<close> is the list of the
  converted comments, in input order) and let the identifiers of the input be unique.
  Then the builder returns threads such that: the root of every thread has no parent;
  every reply of a thread names the identifier of the thread's root as its parent; the
  replies of a thread are all the comments of the input with that parent, in input
  order; and the reply lists of two different threads have no comment in common.
\<close>

theorem build_threads_structure:
  assumes conv: "map make_comment raws = map Inr cs"
    and uniq: "distinct (map raw_id raws)"
  shows "\<exists>ts. build_threads raws = Inr ts
     \<and> (\<forall>t \<in> set ts.
           c_in_reply_to_id (root t) = None
           \<and> (\<forall>r \<in> set (replies t). c_in_reply_to_id r = Some (c_id (root t)))
           \<and> replies t = filter (\<lambda>c. c_in_reply_to_id c = Some (c_id (root t))) cs
           \<and> subseq (replies t) cs)
     \<and> (\<forall>i j. i < j \<and> j < length ts \<longrightarrow> set (replies (ts ! i)) \<inter> set (replies (ts ! j)) = {})"
proof -
  define us where "us = map (mk_thread cs) (filter is_root cs)"
  define ts where "ts = sort_key thread_key us"
  have bt: "build_threads raws = Inr ts"
    by (simp add: build_threads_result [OF conv] ts_def us_def)
  have shape: "\<exists>r \<in> set cs. is_root r \<and> t = mk_thread cs r" if "t \<in> set ts" for t
    using that by (auto simp: ts_def us_def)
  have root_null: "c_in_reply_to_id (root t) = None" if "t \<in> set ts" for t
    using shape [OF that] by (auto simp: mk_thread_def is_root_def)
  have reps_eq: "replies t = filter (\<lambda>c. c_in_reply_to_id c = Some (c_id (root t))) cs"
    if "t \<in> set ts" for t
    using shape [OF that] by (auto simp: mk_thread_def replies_to_def)
  have parent: "c_in_reply_to_id r = Some (c_id (root t))"
    if "t \<in> set ts" "r \<in> set (replies t)" for t r
  proof -
    have "r \<in> set (filter (\<lambda>c. c_in_reply_to_id c = Some (c_id (root t))) cs)"
      using that(2) reps_eq [OF that(1)] by simp
    then show ?thesis by simp
  qed
  have sub: "subseq (replies t) cs" if "t \<in> set ts" for t
    by (simp add: reps_eq [OF that])
  have "distinct (map (\<lambda>c. Some (c_id c)) cs)"
    using uniq make_comments_ids [OF conv] by simp
  then have dcs: "distinct (map c_id cs)"
    by (simp add: distinct_map inj_on_def)
  have "map (\<lambda>t. c_id (root t)) us = map c_id (filter is_root cs)"
    by (simp add: us_def mk_thread_def comp_def)
  then have dus: "distinct (map (\<lambda>t. c_id (root t)) us)"
    using dcs by (simp add: distinct_map_filter)
  have dts: "distinct (map (\<lambda>t. c_id (root t)) ts)"
    using dus by (simp add: ts_def distinct_map)
  have disj: "set (replies (ts ! i)) \<inter> set (replies (ts ! j)) = {}"
    if "i < j" "j < length ts" for i j
  proof -
    have li: "i < length ts" using that by simp
    have "\<forall>a < length ts. \<forall>b < length ts. a \<noteq> b
            \<longrightarrow> c_id (root (ts ! a)) \<noteq> c_id (root (ts ! b))"
      using dts by (simp add: distinct_conv_nth)
    then have ne: "c_id (root (ts ! i)) \<noteq> c_id (root (ts ! j))"
      using that li by simp
    have mi: "ts ! i \<in> set ts" using li by simp
    have mj: "ts ! j \<in> set ts" using that by simp
    show ?thesis
    proof (rule ccontr)
      assume "set (replies (ts ! i)) \<inter> set (replies (ts ! j)) \<noteq> {}"
      then obtain r where ri: "r \<in> set (replies (ts ! i))" and rj: "r \<in> set (replies (ts ! j))"
        by blast
      from parent [OF mi ri] parent [OF mj rj] ne show False by simp
    qed
  qed
  show ?thesis
  proof (intro exI conjI ballI allI impI)
    show "build_threads raws = Inr ts" by (rule bt)
  next
    fix t assume "t \<in> set ts"
    then show "c_in_reply_to_id (root t) = None" by (rule root_null)
  next
    fix t r assume "t \<in> set ts" "r \<in> set (replies t)"
    then show "c_in_reply_to_id r = Some (c_id (root t))" by (rule parent)
  next
    fix t assume "t \<in> set ts"
    then show "replies t = filter (\<lambda>c. c_in_reply_to_id c = Some (c_id (root t))) cs"
      by (rule reps_eq)
  next
    fix t assume "t \<in> set ts"
    then show "subseq (replies t) cs" by (rule sub)
  next
    fix i j assume "i < j \<and> j < length ts"
    then show "set (replies (ts ! i)) \<inter> set (replies (ts ! j)) = {}"
      using disj by blast
  qed
qed

text \<open>On the sample data, whose identifiers 1 to 7 are distinct.\<close>

theorem build_threads_structure_witness:
  "map make_comment sample_raws = map Inr sample_comments
   \<and> distinct (map raw_id sample_raws)
   \<and> build_threads sample_raws = Inr sample_threads
   \<and> (\<exists>ts. build_threads sample_raws = Inr ts
     \<and> (\<forall>t \<in> set ts.
           c_in_reply_to_id (root t) = None
           \<and> (\<forall>r \<in> set (replies t). c_in_reply_to_id r = Some (c_id (root t)))
           \<and> replies t = filter (\<lambda>c. c_in_reply_to_id c = Some (c_id (root t))) sample_comments
           \<and> subseq (replies t) sample_comments)
     \<and> (\<forall>i j. i < j \<and> j < length ts \<longrightarrow> set (replies (ts ! i)) \<inter> set (replies (ts ! j)) = {}))"
proof (intro conjI)
  show "map make_comment sample_raws = map Inr sample_comments"
    by (rule make_comment_samples)
  show "distinct (map raw_id sample_raws)"
    by (rule sample_ids_distinct)
  show "build_threads sample_raws = Inr sample_threads"
    by (rule build_threads_sample)
  show "\<exists>ts. build_threads sample_raws = Inr ts
     \<and> (\<forall>t \<in> set ts.
           c_in_reply_to_id (root t) = None
           \<and> (\<forall>r \<in> set (replies t). c_in_reply_to_id r = Some (c_id (root t)))
           \<and> replies t = filter (\<lambda>c. c_in_reply_to_id c = Some (c_id (root t))) sample_comments
           \<and> subseq (replies t) sample_comments)
     \<and> (\<forall>i j. i < j \<and> j < length ts \<longrightarrow> set (replies (ts ! i)) \<inter> set (replies (ts ! j)) = {})"
    by (rule build_threads_structure [OF make_comment_samples sample_ids_distinct])
qed

subsection \<open>Order of the threads\<close>

text \<open>
  Claim C2. The threads are returned in ascending order of the key (path of the root,
  line of the root or 0), paths compared lexicographically and lines numerically. For
  every key, the roots of the threads with that key appear in the result in the order in
  which the input has them: the sort is stable and there is no further key.
\<close>

theorem build_threads_sorted_stable:
  assumes conv: "map make_comment raws = map Inr cs"
  shows "\<exists>ts. build_threads raws = Inr ts
     \<and> sorted_wrt (\<lambda>a b. key_le (root a) (root b)) ts
     \<and> (\<forall>p n. map root (filter (\<lambda>t. c_path (root t) = p \<and> line_or_0 (root t) = n) ts)
               = filter (\<lambda>c. c_in_reply_to_id c = None \<and> c_path c = p \<and> line_or_0 c = n) cs)"
proof -
  define us where "us = map (mk_thread cs) (filter is_root cs)"
  define ts where "ts = sort_key thread_key us"
  have bt: "build_threads raws = Inr ts"
    by (simp add: build_threads_result [OF conv] ts_def us_def)
  have "sorted (map thread_key ts)"
    by (simp add: ts_def)
  then have "sorted_wrt (\<lambda>a b. thread_key a \<le> thread_key b) ts"
    by (simp add: sorted_wrt_map)
  then have srt: "sorted_wrt (\<lambda>a b. key_le (root a) (root b)) ts"
    by (simp add: thread_key_le)
  have stable: "map root (filter (\<lambda>t. c_path (root t) = p \<and> line_or_0 (root t) = n) ts)
      = filter (\<lambda>c. c_in_reply_to_id c = None \<and> c_path c = p \<and> line_or_0 c = n) cs" for p n
  proof -
    have "filter (\<lambda>t. thread_key t = (p, n)) ts = filter (\<lambda>t. thread_key t = (p, n)) us"
      unfolding ts_def by (rule sort_key_stable)
    then have "filter (\<lambda>t. c_path (root t) = p \<and> line_or_0 (root t) = n) ts
        = filter (\<lambda>t. c_path (root t) = p \<and> line_or_0 (root t) = n) us"
      by (simp add: thread_key_eq)
    moreover have "map root (filter (\<lambda>t. c_path (root t) = p \<and> line_or_0 (root t) = n) us)
        = filter (\<lambda>c. c_in_reply_to_id c = None \<and> c_path c = p \<and> line_or_0 c = n) cs"
      unfolding us_def
      by (simp add: roots_of_mk_thread [of "\<lambda>c. c_path c = p \<and> line_or_0 c = n"] is_root_def)
    ultimately show ?thesis by simp
  qed
  show ?thesis
  proof (intro exI conjI allI)
    show "build_threads raws = Inr ts" by (rule bt)
    show "sorted_wrt (\<lambda>a b. key_le (root a) (root b)) ts" by (rule srt)
    show "map root (filter (\<lambda>t. c_path (root t) = p \<and> line_or_0 (root t) = n) ts)
      = filter (\<lambda>c. c_in_reply_to_id c = None \<and> c_path c = p \<and> line_or_0 c = n) cs" for p n
      by (rule stable)
  qed
qed

text \<open>
  On the sample data: the root without a line comes first in \<open>a.py\<close>, the roots 3 and 6
  share the key \<open>(a.py, 7)\<close> and keep their input order, and \<open>b.py\<close>, first in the
  input, comes last.
\<close>

theorem build_threads_sorted_stable_witness:
  "map make_comment sample_raws = map Inr sample_comments
   \<and> build_threads sample_raws = Inr sample_threads
   \<and> map (\<lambda>t. (c_id (root t), c_path (root t), line_or_0 (root t))) sample_threads
       = [(7, u ''a.py'', 0), (3, u ''a.py'', 7), (6, u ''a.py'', 7), (1, u ''b.py'', 5)]
   \<and> (\<exists>ts. build_threads sample_raws = Inr ts
     \<and> sorted_wrt (\<lambda>a b. key_le (root a) (root b)) ts
     \<and> (\<forall>p n. map root (filter (\<lambda>t. c_path (root t) = p \<and> line_or_0 (root t) = n) ts)
               = filter (\<lambda>c. c_in_reply_to_id c = None \<and> c_path c = p \<and> line_or_0 c = n)
                   sample_comments))"
proof (intro conjI)
  show "map make_comment sample_raws = map Inr sample_comments"
    by (rule make_comment_samples)
  show "build_threads sample_raws = Inr sample_threads"
    by (rule build_threads_sample)
  show "map (\<lambda>t. (c_id (root t), c_path (root t), line_or_0 (root t))) sample_threads
       = [(7, u ''a.py'', 0), (3, u ''a.py'', 7), (6, u ''a.py'', 7), (1, u ''b.py'', 5)]"
    by (simp add: sample_threads_def sample_comment_def line_or_0_def)
  show "\<exists>ts. build_threads sample_raws = Inr ts
     \<and> sorted_wrt (\<lambda>a b. key_le (root a) (root b)) ts
     \<and> (\<forall>p n. map root (filter (\<lambda>t. c_path (root t) = p \<and> line_or_0 (root t) = n) ts)
               = filter (\<lambda>c. c_in_reply_to_id c = None \<and> c_path c = p \<and> line_or_0 c = n)
                   sample_comments)"
    by (rule build_threads_sorted_stable [OF make_comment_samples])
qed

subsection \<open>Replies to a missing parent\<close>

text \<open>
  Claim C5. Let every raw comment have the keys the conversion requires (an identifier
  and the login of a user). A comment whose parent identifier is the identifier of no
  root of the input is in the reply list of no thread, and the builder returns its
  threads: it raises no error on such a reference.
\<close>

theorem dangling_reply_dropped:
  assumes wf: "\<forall>r \<in> set raws. raw_id r \<noteq> None \<and> (\<exists>usr. raw_user r = Some usr \<and> login usr \<noteq> None)"
    and mem: "raw \<in> set raws"
    and par: "raw_in_reply_to_id raw = Some p"
    and dangling: "\<forall>r \<in> set raws. raw_in_reply_to_id r = None \<longrightarrow> raw_id r \<noteq> Some p"
  shows "\<exists>ts c. build_threads raws = Inr ts \<and> make_comment raw = Inr c
           \<and> (\<forall>t \<in> set ts. c \<notin> set (replies t))"
proof -
  from make_comments_total [OF wf] obtain cs where conv: "map make_comment raws = map Inr cs" ..
  define ts where "ts = sort_key thread_key (map (mk_thread cs) (filter is_root cs))"
  have bt: "build_threads raws = Inr ts"
    by (simp add: build_threads_result [OF conv] ts_def)
  from make_comments_nth [OF conv mem] obtain c where c: "make_comment raw = Inr c" by blast
  have cpar: "c_in_reply_to_id c = Some p"
    using make_comment_parent [OF c] par by simp
  have absent: "c \<notin> set (replies t)" if "t \<in> set ts" for t
  proof
    assume in_t: "c \<in> set (replies t)"
    from that obtain r where r: "r \<in> set cs" "is_root r" and t: "t = mk_thread cs r"
      by (auto simp: ts_def)
    from in_t t have "c_in_reply_to_id c = Some (c_id r)"
      by (simp add: mk_thread_def replies_to_def)
    with cpar have p: "c_id r = p" by simp
    from make_comments_back [OF conv r(1)] obtain raw' where
      raw': "raw' \<in> set raws" "make_comment raw' = Inr r" by blast
    have "raw_id raw' = Some p"
      using make_comment_id [OF raw'(2)] p by simp
    moreover have "raw_in_reply_to_id raw' = None"
      using make_comment_parent [OF raw'(2)] r(2) by (simp add: is_root_def)
    ultimately show False using dangling raw'(1) by blast
  qed
  show ?thesis
  proof (intro exI conjI ballI)
    show "build_threads raws = Inr ts" by (rule bt)
    show "make_comment raw = Inr c" by (rule c)
    show "c \<notin> set (replies t)" if "t \<in> set ts" for t using that by (rule absent)
  qed
qed

text \<open>
  On the sample data: comment 4 replies to 99; the only replies attached to a thread are
  the comments 2 and 5.
\<close>

theorem dangling_reply_dropped_witness:
  "sample_raw 4 (u ''a.py'') (Some 7) (Some 99) \<in> set sample_raws
   \<and> raw_in_reply_to_id (sample_raw 4 (u ''a.py'') (Some 7) (Some 99)) = Some 99
   \<and> build_threads sample_raws = Inr sample_threads
   \<and> map c_id (concat (map replies sample_threads)) = [2, 5]
   \<and> (\<exists>ts c. build_threads sample_raws = Inr ts
          \<and> make_comment (sample_raw 4 (u ''a.py'') (Some 7) (Some 99)) = Inr c
          \<and> (\<forall>t \<in> set ts. c \<notin> set (replies t)))"
proof (intro conjI)
  show "sample_raw 4 (u ''a.py'') (Some 7) (Some 99) \<in> set sample_raws"
    by (rule sample_raw_4_mem)
  show "raw_in_reply_to_id (sample_raw 4 (u ''a.py'') (Some 7) (Some 99)) = Some 99"
    by (rule sample_raw_4_parent)
  show "build_threads sample_raws = Inr sample_threads"
    by (rule build_threads_sample)
  show "map c_id (concat (map replies sample_threads)) = [2, 5]"
    by (simp add: sample_threads_def sample_comment_def)
  show "\<exists>ts c. build_threads sample_raws = Inr ts
          \<and> make_comment (sample_raw 4 (u ''a.py'') (Some 7) (Some 99)) = Inr c
          \<and> (\<forall>t \<in> set ts. c \<notin> set (replies t))"
    by (rule dangling_reply_dropped
        [OF sample_raws_wf sample_raw_4_mem sample_raw_4_parent sample_raw_4_dangling])
qed


section \<open>The renderer\<close>

subsection \<open>The loop over the threads\<close>

lemma entry_from_Suc:
  "entry_from lower (t # ts) cur idx (Suc i)
     = entry_from lower ts (Some (c_path (root t))) (idx + 1) i"
  by (cases i) (auto simp: entry_from_def algebra_simps)

lemma render_threads_from:
  "render_threads lower ts cur idx = concat (map (entry_from lower ts cur idx) [0..<length ts])"
proof (induction ts arbitrary: cur idx)
  case Nil
  then show ?case by simp
next
  case (Cons t ts)
  have "[0..<Suc (length ts)] = 0 # [Suc 0..<Suc (length ts)]"
    by (rule upt_conv_Cons) simp
  then have upt: "[0..<length (t # ts)] = 0 # map Suc [0..<length ts]"
    by (simp only: map_Suc_upt list.size(4) One_nat_def add_Suc_right add_0_right)
  have tail: "entry_from lower (t # ts) c idx \<circ> Suc
      = entry_from lower ts (Some (c_path (root t))) (idx + 1)" for c
    by (rule ext) (simp add: entry_from_Suc)
  have head: "entry_from lower (t # ts) c idx 0
      = (if Some (c_path (root t)) \<noteq> c then file_heading (c_path (root t)) else [])
        @ [render_thread lower t idx]" for c
    by (simp add: entry_from_def)
  show ?case
  proof (cases "Some (c_path (root t)) \<noteq> cur")
    case True
    then show ?thesis
      unfolding upt by (simp add: tail head Cons.IH file_heading_def)
  next
    case False
    then have cur: "cur = Some (c_path (root t))" by simp
    show ?thesis
      unfolding upt by (simp add: tail head Cons.IH cur)
  qed
qed

lemma entry_from_start: "entry_from lower ts None 1 i = thread_entry lower ts i"
  by (cases i) (auto simp: entry_from_def thread_entry_def new_group_def)

lemma render_threads_entries:
  "render_threads lower ts None 1 = concat (map (thread_entry lower ts) [0..<length ts])"
  by (simp add: render_threads_from entry_from_start [abs_def])

lemma render_thread_heading:
  "\<exists>rest. render_thread lower t idx = thread_heading t idx @ nl @ rest"
  by (simp add: render_thread_def)

lemma thread_heading_text:
  "thread_heading t idx
     = u ''### Thread '' @ str_int idx @ u '' '' @ em_dash @ u '' `'' @ c_path (root t)
       @ u ''` (line '' @ (case c_line (root t) of None \<Rightarrow> u ''None'' | Some n \<Rightarrow> str_int n)
       @ u '') ['' @ (if replies t = [] then u ''**OPEN**'' else u ''addressed'') @ u '']''"
  by (simp add: thread_heading_def str_opt_int_def thread_status_def is_resolved_def)

lemma str_int_digits:
  "str_int 1 = [49]" "str_int 4 = [52]" "str_int 5 = [53]" "str_int 7 = [55]"
  by (simp_all add: str_int_def str_nat.simps)

lemma sample_paths:
  "c_path (root (sample_threads ! 0)) = u ''a.py''"
  "c_path (root (sample_threads ! 1)) = u ''a.py''"
  "c_path (root (sample_threads ! Suc 0)) = u ''a.py''"
  "c_path (root (sample_threads ! 2)) = u ''a.py''"
  "c_path (root (sample_threads ! 3)) = u ''b.py''"
  by (simp_all add: sample_threads_def sample_comment_def)

lemma a_py_neq_b_py: "u ''b.py'' \<noteq> u ''a.py''"
  by (simp add: u_def)

lemma no_thread_heading_in_notice:
  "\<not> prefix (u ''### Thread'') (u ''## Inline Review Comments'')"
  "u ''### Thread'' \<noteq> []"
  "\<not> prefix (u ''### Thread'') (u ''_No inline review comments found for the selected filter._'')"
  by (simp_all add: u_def)

subsection \<open>The heading of a thread\<close>

lemma sample_filter_all: "sample_threads = filter_threads sample_threads (u ''all'')"
  by (simp add: filter_threads_def u_all_neq_unresolved)

lemma sample_length: "length sample_threads = 4"
  by (simp add: sample_threads_def)

text \<open>
  Claim C7. Let the builder return \<open>all_threads\<close> and let \<open>ts\<close> be the list that the
  filter of \<open>format_pr\<close> leaves for the mode. The document holds the inline block of
  \<open>ts\<close>, and the block holds, after its four opening lines, the entries of the threads
  of \<open>ts\<close> in order. The entry of the thread at position \<open>i\<close> (counted from 0) ends with
  that thread rendered with the index \<open>i + 1\<close>: the index runs over the whole filtered
  list and does not restart with a new file. The rendered thread begins with the heading
  line, which names that index, the path of the root, the line of the root (\<open>None\<close> when
  the root has no line) and the status: \<open>**OPEN**\<close> when the thread has no reply,
  \<open>addressed\<close> when it has one.
\<close>

theorem thread_heading_index:
  assumes built: "build_threads review_comments = Inr all_threads"
    and filtered: "ts = filter_threads all_threads mode"
    and pos: "i < length ts"
  shows "format_pr_lines lower pr_info review_comments issue_comments reviews mode
           = Inr (header_lines pr_info mode @ review_lines reviews
                  @ inline_lines lower ts mode @ general_lines lower issue_comments)
     \<and> inline_lines lower ts mode
         = [u ''## Inline Review Comments'', [],
            u ''_'' @ str_int (int (length ts)) @ u '' thread(s) shown (''
              @ (if mode = u ''unresolved'' then u ''open only''
                 else u ''all, including addressed'') @ u '')._'',
            []]
           @ concat (map (thread_entry lower ts) [0..<length ts])
     \<and> thread_entry lower ts i
         = (if i = 0 \<or> c_path (root (ts ! i)) \<noteq> c_path (root (ts ! (i - 1)))
            then [u ''---'', u ''## File: `'' @ c_path (root (ts ! i)) @ u ''`'', []]
            else [])
           @ [render_thread lower (ts ! i) (int i + 1)]
     \<and> (\<exists>rest.
           render_thread lower (ts ! i) (int i + 1)
             = u ''### Thread '' @ str_int (int i + 1) @ u '' '' @ em_dash @ u '' `''
               @ c_path (root (ts ! i)) @ u ''` (line ''
               @ (case c_line (root (ts ! i)) of None \<Rightarrow> u ''None'' | Some n \<Rightarrow> str_int n)
               @ u '') ['' @ (if replies (ts ! i) = [] then u ''**OPEN**'' else u ''addressed'')
               @ u '']'' @ nl @ rest)"
proof (intro conjI)
  show "format_pr_lines lower pr_info review_comments issue_comments reviews mode
           = Inr (header_lines pr_info mode @ review_lines reviews
                  @ inline_lines lower ts mode @ general_lines lower issue_comments)"
    by (simp add: format_pr_lines_def built filtered)
  have "ts \<noteq> []" using pos by auto
  then show "inline_lines lower ts mode
         = [u ''## Inline Review Comments'', [],
            u ''_'' @ str_int (int (length ts)) @ u '' thread(s) shown (''
              @ (if mode = u ''unresolved'' then u ''open only''
                 else u ''all, including addressed'') @ u '')._'',
            []]
           @ concat (map (thread_entry lower ts) [0..<length ts])"
    by (simp add: inline_lines_def render_threads_entries)
  show "thread_entry lower ts i
         = (if i = 0 \<or> c_path (root (ts ! i)) \<noteq> c_path (root (ts ! (i - 1)))
            then [u ''---'', u ''## File: `'' @ c_path (root (ts ! i)) @ u ''`'', []]
            else [])
           @ [render_thread lower (ts ! i) (int i + 1)]"
    by (simp add: thread_entry_def new_group_def file_heading_def)
  obtain rest where
    "render_thread lower (ts ! i) (int i + 1) = thread_heading (ts ! i) (int i + 1) @ nl @ rest"
    using render_thread_heading by blast
  then show "\<exists>rest.
           render_thread lower (ts ! i) (int i + 1)
             = u ''### Thread '' @ str_int (int i + 1) @ u '' '' @ em_dash @ u '' `''
               @ c_path (root (ts ! i)) @ u ''` (line ''
               @ (case c_line (root (ts ! i)) of None \<Rightarrow> u ''None'' | Some n \<Rightarrow> str_int n)
               @ u '') ['' @ (if replies (ts ! i) = [] then u ''**OPEN**'' else u ''addressed'')
               @ u '']'' @ nl @ rest"
    by (simp add: thread_heading_text)
qed

text \<open>
  On the sample data with the mode \<open>"all"\<close>: the fourth thread, the first one on
  \<open>b.py\<close>, has the index 4 and two replies; the first thread has a root without a line
  and no reply.
\<close>

theorem thread_heading_index_witness:
  "build_threads sample_raws = Inr sample_threads
   \<and> sample_threads = filter_threads sample_threads (u ''all'')
   \<and> 3 < length sample_threads
   \<and> format_pr_lines (\<lambda>s. s) sample_pr sample_raws [] [] (u ''all'')
       = Inr (header_lines sample_pr (u ''all'') @ review_lines []
              @ inline_lines (\<lambda>s. s) sample_threads (u ''all'') @ general_lines (\<lambda>s. s) [])
   \<and> inline_lines (\<lambda>s. s) sample_threads (u ''all'')
       = [u ''## Inline Review Comments'', [],
          u ''_4 thread(s) shown (all, including addressed)._'', []]
         @ concat (map (thread_entry (\<lambda>s. s) sample_threads) [0, 1, 2, 3])
   \<and> thread_entry (\<lambda>s. s) sample_threads 3
       = [u ''---'', u ''## File: `b.py`'', [], render_thread (\<lambda>s. s) (sample_threads ! 3) 4]
   \<and> (\<exists>rest. render_thread (\<lambda>s. s) (sample_threads ! 3) 4
         = u ''### Thread 4 '' @ em_dash @ u '' `b.py` (line 5) [addressed]'' @ nl @ rest)
   \<and> thread_entry (\<lambda>s. s) sample_threads 0
       = [u ''---'', u ''## File: `a.py`'', [], render_thread (\<lambda>s. s) (sample_threads ! 0) 1]
   \<and> (\<exists>rest. render_thread (\<lambda>s. s) (sample_threads ! 0) 1
         = u ''### Thread 1 '' @ em_dash @ u '' `a.py` (line None) [**OPEN**]'' @ nl @ rest)"
proof -
  have len3: "3 < length sample_threads" and len0: "0 < length sample_threads"
    by (simp_all add: sample_length)
  note i3 = thread_heading_index
    [OF build_threads_sample sample_filter_all len3, of "\<lambda>s. s" sample_pr "[]" "[]"]
  note i0 = thread_heading_index
    [OF build_threads_sample sample_filter_all len0, of "\<lambda>s. s" sample_pr "[]" "[]"]
  have upt: "[0..<4] = [0, 1, 2, Suc 2]" by (simp add: upt_rec)
  have t3: "root (sample_threads ! 3) = sample_comment 1 (u ''b.py'') (Some 5) None"
    "replies (sample_threads ! 3) \<noteq> []"
    by (simp_all add: sample_threads_def)
  have t0: "root (sample_threads ! 0) = sample_comment 7 (u ''a.py'') None None"
    "replies (sample_threads ! 0) = []"
    by (simp_all add: sample_threads_def)
  from i3 have doc: "format_pr_lines (\<lambda>s. s) sample_pr sample_raws [] [] (u ''all'')
       = Inr (header_lines sample_pr (u ''all'') @ review_lines []
              @ inline_lines (\<lambda>s. s) sample_threads (u ''all'') @ general_lines (\<lambda>s. s) [])"
    by (rule conjunct1)
  from i3 have "inline_lines (\<lambda>s. s) sample_threads (u ''all'')
         = [u ''## Inline Review Comments'', [],
            u ''_'' @ str_int (int (length sample_threads)) @ u '' thread(s) shown (''
              @ (if u ''all'' = u ''unresolved'' then u ''open only''
                 else u ''all, including addressed'') @ u '')._'',
            []]
           @ concat (map (thread_entry (\<lambda>s. s) sample_threads) [0..<length sample_threads])"
    by blast
  then have block: "inline_lines (\<lambda>s. s) sample_threads (u ''all'')
       = [u ''## Inline Review Comments'', [],
          u ''_4 thread(s) shown (all, including addressed)._'', []]
         @ concat (map (thread_entry (\<lambda>s. s) sample_threads) [0, 1, 2, 3])"
    by (simp add: sample_length upt u_all_neq_unresolved str_int_digits u_def)
  from i3 have "thread_entry (\<lambda>s. s) sample_threads 3
         = (if (3::nat) = 0 \<or> c_path (root (sample_threads ! 3)) \<noteq> c_path (root (sample_threads ! (3 - 1)))
            then [u ''---'', u ''## File: `'' @ c_path (root (sample_threads ! 3)) @ u ''`'', []]
            else [])
           @ [render_thread (\<lambda>s. s) (sample_threads ! 3) (int 3 + 1)]"
    by blast
  then have e3: "thread_entry (\<lambda>s. s) sample_threads 3
       = [u ''---'', u ''## File: `b.py`'', [], render_thread (\<lambda>s. s) (sample_threads ! 3) 4]"
    by (simp add: sample_paths a_py_neq_b_py) (simp add: u_def)
  from i3 have "\<exists>rest.
           render_thread (\<lambda>s. s) (sample_threads ! 3) (int 3 + 1)
             = u ''### Thread '' @ str_int (int 3 + 1) @ u '' '' @ em_dash @ u '' `''
               @ c_path (root (sample_threads ! 3)) @ u ''` (line ''
               @ (case c_line (root (sample_threads ! 3)) of None \<Rightarrow> u ''None'' | Some n \<Rightarrow> str_int n)
               @ u '') ['' @ (if replies (sample_threads ! 3) = [] then u ''**OPEN**'' else u ''addressed'')
               @ u '']'' @ nl @ rest"
    by blast
  then have h3: "\<exists>rest. render_thread (\<lambda>s. s) (sample_threads ! 3) 4
         = u ''### Thread 4 '' @ em_dash @ u '' `b.py` (line 5) [addressed]'' @ nl @ rest"
    by (simp add: t3 sample_comment_def str_int_digits u_def)
  from i0 have "thread_entry (\<lambda>s. s) sample_threads 0
         = (if (0::nat) = 0 \<or> c_path (root (sample_threads ! 0)) \<noteq> c_path (root (sample_threads ! (0 - 1)))
            then [u ''---'', u ''## File: `'' @ c_path (root (sample_threads ! 0)) @ u ''`'', []]
            else [])
           @ [render_thread (\<lambda>s. s) (sample_threads ! 0) (int 0 + 1)]"
    by blast
  then have e0: "thread_entry (\<lambda>s. s) sample_threads 0
       = [u ''---'', u ''## File: `a.py`'', [], render_thread (\<lambda>s. s) (sample_threads ! 0) 1]"
    by (simp add: sample_paths u_def)
  from i0 have "\<exists>rest.
           render_thread (\<lambda>s. s) (sample_threads ! 0) (int 0 + 1)
             = u ''### Thread '' @ str_int (int 0 + 1) @ u '' '' @ em_dash @ u '' `''
               @ c_path (root (sample_threads ! 0)) @ u ''` (line ''
               @ (case c_line (root (sample_threads ! 0)) of None \<Rightarrow> u ''None'' | Some n \<Rightarrow> str_int n)
               @ u '') ['' @ (if replies (sample_threads ! 0) = [] then u ''**OPEN**'' else u ''addressed'')
               @ u '']'' @ nl @ rest"
    by blast
  then have h0: "\<exists>rest. render_thread (\<lambda>s. s) (sample_threads ! 0) 1
         = u ''### Thread 1 '' @ em_dash @ u '' `a.py` (line None) [**OPEN**]'' @ nl @ rest"
    by (simp add: t0 sample_comment_def str_int_digits u_def)
  from build_threads_sample sample_filter_all len3 doc block e3 h3 e0 h0
  show ?thesis by (intro conjI)
qed

subsection \<open>The block of the inline threads\<close>

text \<open>
  Claim C8. For an empty list of threads the block is its title and the notice that no
  inline comment was found; no line of it is the heading of a thread. For a list that is
  not empty the block has a line that counts the threads and says whether only open
  threads are shown, followed by the entries of the threads in order; the entry of a
  thread starts with a file heading exactly when the thread is the first one or the path
  of its root differs from the path of the previous root. The block is the third part of
  the document, after the header and the review summaries.
\<close>

theorem inline_block_structure:
  "inline_lines lower [] mode
     = [u ''## Inline Review Comments'', [],
        u ''_No inline review comments found for the selected filter._'', []]
   \<and> list_all (\<lambda>l. \<not> prefix (u ''### Thread'') l) (inline_lines lower [] mode)
   \<and> (ts \<noteq> [] \<longrightarrow>
        inline_lines lower ts mode
          = [u ''## Inline Review Comments'', [],
             u ''_'' @ str_int (int (length ts)) @ u '' thread(s) shown (''
               @ (if mode = u ''unresolved'' then u ''open only''
                  else u ''all, including addressed'') @ u '')._'',
             []]
            @ concat (map (thread_entry lower ts) [0..<length ts]))
   \<and> (\<forall>i < length ts.
        thread_entry lower ts i
          = (if i = 0 \<or> c_path (root (ts ! i)) \<noteq> c_path (root (ts ! (i - 1)))
             then [u ''---'', u ''## File: `'' @ c_path (root (ts ! i)) @ u ''`'', []]
             else [])
            @ [render_thread lower (ts ! i) (int i + 1)])
   \<and> (\<forall>all_threads. build_threads review_comments = Inr all_threads \<longrightarrow>
        format_pr_lines lower pr_info review_comments issue_comments reviews mode
          = Inr (header_lines pr_info mode @ review_lines reviews
                 @ inline_lines lower (filter_threads all_threads mode) mode
                 @ general_lines lower issue_comments))"
proof (intro conjI allI impI)
  show "inline_lines lower [] mode
     = [u ''## Inline Review Comments'', [],
        u ''_No inline review comments found for the selected filter._'', []]"
    by (simp add: inline_lines_def)
  then show "list_all (\<lambda>l. \<not> prefix (u ''### Thread'') l) (inline_lines lower [] mode)"
    by (simp add: no_thread_heading_in_notice)
next
  assume "ts \<noteq> []"
  then show "inline_lines lower ts mode
          = [u ''## Inline Review Comments'', [],
             u ''_'' @ str_int (int (length ts)) @ u '' thread(s) shown (''
               @ (if mode = u ''unresolved'' then u ''open only''
                  else u ''all, including addressed'') @ u '')._'',
             []]
            @ concat (map (thread_entry lower ts) [0..<length ts])"
    by (simp add: inline_lines_def render_threads_entries)
next
  fix i assume "i < length ts"
  show "thread_entry lower ts i
          = (if i = 0 \<or> c_path (root (ts ! i)) \<noteq> c_path (root (ts ! (i - 1)))
             then [u ''---'', u ''## File: `'' @ c_path (root (ts ! i)) @ u ''`'', []]
             else [])
            @ [render_thread lower (ts ! i) (int i + 1)]"
    by (simp add: thread_entry_def new_group_def file_heading_def)
next
  fix all_threads assume "build_threads review_comments = Inr all_threads"
  then show "format_pr_lines lower pr_info review_comments issue_comments reviews mode
          = Inr (header_lines pr_info mode @ review_lines reviews
                 @ inline_lines lower (filter_threads all_threads mode) mode
                 @ general_lines lower issue_comments)"
    by (simp add: format_pr_lines_def)
qed

text \<open>
  On the sorted sample threads with the mode \<open>"all"\<close>: four threads are counted, and the
  file headings are those of \<open>a.py\<close> before the first thread and of \<open>b.py\<close> before the
  fourth.
\<close>

theorem inline_block_structure_witness:
  "sample_threads \<noteq> []
   \<and> inline_lines (\<lambda>s. s) sample_threads (u ''all'')
       = [u ''## Inline Review Comments'', [],
          u ''_4 thread(s) shown (all, including addressed)._'', []]
         @ concat (map (thread_entry (\<lambda>s. s) sample_threads) [0, 1, 2, 3])
   \<and> thread_entry (\<lambda>s. s) sample_threads 0
       = [u ''---'', u ''## File: `a.py`'', [], render_thread (\<lambda>s. s) (sample_threads ! 0) 1]
   \<and> thread_entry (\<lambda>s. s) sample_threads 1 = [render_thread (\<lambda>s. s) (sample_threads ! 1) 2]
   \<and> thread_entry (\<lambda>s. s) sample_threads 2 = [render_thread (\<lambda>s. s) (sample_threads ! 2) 3]
   \<and> thread_entry (\<lambda>s. s) sample_threads 3
       = [u ''---'', u ''## File: `b.py`'', [], render_thread (\<lambda>s. s) (sample_threads ! 3) 4]"
proof -
  note inst = inline_block_structure [of "\<lambda>s. s" "u ''all''" sample_threads]
  have ne: "sample_threads \<noteq> []" by (simp add: sample_threads_def)
  have len: "length sample_threads = 4" by (simp add: sample_threads_def)
  have upt: "[0..<4] = [0, 1, 2, Suc 2]" by (simp add: upt_rec)
  from inst have block: "sample_threads \<noteq> [] \<longrightarrow>
        inline_lines (\<lambda>s. s) sample_threads (u ''all'')
          = [u ''## Inline Review Comments'', [],
             u ''_'' @ str_int (int (length sample_threads)) @ u '' thread(s) shown (''
               @ (if u ''all'' = u ''unresolved'' then u ''open only''
                  else u ''all, including addressed'') @ u '')._'',
             []]
            @ concat (map (thread_entry (\<lambda>s. s) sample_threads) [0..<length sample_threads])"
    by blast
  from inst have entries: "\<forall>i < length sample_threads.
        thread_entry (\<lambda>s. s) sample_threads i
          = (if i = 0 \<or> c_path (root (sample_threads ! i)) \<noteq> c_path (root (sample_threads ! (i - 1)))
             then [u ''---'', u ''## File: `'' @ c_path (root (sample_threads ! i)) @ u ''`'', []]
             else [])
            @ [render_thread (\<lambda>s. s) (sample_threads ! i) (int i + 1)]"
    by blast
  have b: "inline_lines (\<lambda>s. s) sample_threads (u ''all'')
       = [u ''## Inline Review Comments'', [],
          u ''_4 thread(s) shown (all, including addressed)._'', []]
         @ concat (map (thread_entry (\<lambda>s. s) sample_threads) [0, 1, 2, 3])"
    using block [rule_format, OF ne]
    by (simp add: len upt u_all_neq_unresolved str_int_digits u_def)
  have e0: "thread_entry (\<lambda>s. s) sample_threads 0
       = [u ''---'', u ''## File: `a.py`'', [], render_thread (\<lambda>s. s) (sample_threads ! 0) 1]"
    using entries [rule_format, of 0] by (simp add: len sample_paths u_def)
  have e1: "thread_entry (\<lambda>s. s) sample_threads 1 = [render_thread (\<lambda>s. s) (sample_threads ! 1) 2]"
    using entries [rule_format, of 1] by (simp add: len sample_paths)
  have e2: "thread_entry (\<lambda>s. s) sample_threads 2 = [render_thread (\<lambda>s. s) (sample_threads ! 2) 3]"
    using entries [rule_format, of 2] by (simp add: len sample_paths)
  have e3: "thread_entry (\<lambda>s. s) sample_threads 3
       = [u ''---'', u ''## File: `b.py`'', [], render_thread (\<lambda>s. s) (sample_threads ! 3) 4]"
    using entries [rule_format, of 3] by (simp add: len sample_paths a_py_neq_b_py) (simp add: u_def)
  from ne b e0 e1 e2 e3 show ?thesis by (intro conjI)
qed


subsection \<open>The review summaries\<close>














subsection \<open>Filter modes other than unresolved\<close>

lemma inline_lines_other_mode:
  "mode \<noteq> u ''unresolved'' \<Longrightarrow> inline_lines lower ts mode = inline_lines lower ts (u ''all'')"
  by (simp add: inline_lines_def u_all_neq_unresolved)

lemma header_lines_mode:
  "header_lines pr_info mode = (header_lines pr_info (u ''all''))[7 := u ''- **Filter:** '' @ mode]"
  by (simp add: header_lines_def)

lemma str_join_header:
  "str_join nl (header_lines pr_info mode @ rest)
     = doc_prefix pr_info @ mode @ nl @ str_join nl ([] # rest)"
  by (simp add: header_lines_def doc_prefix_def)

lemma open_neq_unresolved: "u ''open'' \<noteq> u ''unresolved''" "[] \<noteq> u ''unresolved''"
  by (simp_all add: u_def)

text \<open>
  Claim C10. The only error of \<open>format_pr\<close> is the one of the thread builder, which does
  not depend on the mode, and there is none when every raw comment has its required keys.
  For every mode other than \<open>"unresolved"\<close> all the threads are rendered, the lines of
  the document are those of the mode \<open>"all"\<close> except for the filter line of the header,
  and the document is one fixed text, the mode string, and another fixed text: the mode
  appears in the output only as the label of the filter line.
\<close>

theorem other_modes_render_all:
  "(\<forall>e. build_threads review_comments = Inl e \<longrightarrow>
        format_pr lower pr_info review_comments issue_comments reviews mode = Inl e)
   \<and> (\<forall>ts. build_threads review_comments = Inr ts \<and> mode \<noteq> u ''unresolved'' \<longrightarrow>
        filter_threads ts mode = ts
        \<and> format_pr_lines lower pr_info review_comments issue_comments reviews mode
            = Inr ((header_lines pr_info (u ''all''))[7 := u ''- **Filter:** '' @ mode]
                   @ review_lines reviews @ inline_lines lower ts (u ''all'')
                   @ general_lines lower issue_comments)
        \<and> format_pr lower pr_info review_comments issue_comments reviews mode
            = Inr (doc_prefix pr_info @ mode @ doc_suffix lower ts issue_comments reviews))
   \<and> ((\<forall>r \<in> set review_comments.
          raw_id r \<noteq> None \<and> (\<exists>usr. raw_user r = Some usr \<and> login usr \<noteq> None))
        \<longrightarrow> (\<exists>doc. format_pr lower pr_info review_comments issue_comments reviews mode = Inr doc))"
proof (intro conjI allI impI)
  fix e assume "build_threads review_comments = Inl e"
  then show "format_pr lower pr_info review_comments issue_comments reviews mode = Inl e"
    by (simp add: format_pr_def format_pr_lines_def)
next
  fix ts assume a: "build_threads review_comments = Inr ts \<and> mode \<noteq> u ''unresolved''"
  then have bt: "build_threads review_comments = Inr ts" and m: "mode \<noteq> u ''unresolved''"
    by simp_all
  show ft: "filter_threads ts mode = ts"
    using m by (simp add: filter_threads_def)
  have lines: "format_pr_lines lower pr_info review_comments issue_comments reviews mode
      = Inr (header_lines pr_info mode @ review_lines reviews @ inline_lines lower ts (u ''all'')
             @ general_lines lower issue_comments)"
    by (simp add: format_pr_lines_def bt ft inline_lines_other_mode [OF m])
  then show "format_pr_lines lower pr_info review_comments issue_comments reviews mode
            = Inr ((header_lines pr_info (u ''all''))[7 := u ''- **Filter:** '' @ mode]
                   @ review_lines reviews @ inline_lines lower ts (u ''all'')
                   @ general_lines lower issue_comments)"
    by (simp only: header_lines_mode [symmetric])
  show "format_pr lower pr_info review_comments issue_comments reviews mode
            = Inr (doc_prefix pr_info @ mode @ doc_suffix lower ts issue_comments reviews)"
    by (simp add: format_pr_def lines str_join_header doc_suffix_def)
next
  assume wf: "\<forall>r \<in> set review_comments.
          raw_id r \<noteq> None \<and> (\<exists>usr. raw_user r = Some usr \<and> login usr \<noteq> None)"
  from make_comments_total [OF wf] obtain cs where
    "map make_comment review_comments = map Inr cs" ..
  then obtain ts where "build_threads review_comments = Inr ts"
    using build_threads_result by blast
  then show "\<exists>doc. format_pr lower pr_info review_comments issue_comments reviews mode = Inr doc"
    by (simp add: format_pr_def format_pr_lines_def)
qed

text \<open>On the sample data with the modes \<open>"open"\<close>, \<open>""\<close> and \<open>"all"\<close>.\<close>

theorem other_modes_render_all_witness:
  "build_threads sample_raws = Inr sample_threads
   \<and> u ''open'' \<noteq> u ''unresolved''
   \<and> format_pr (\<lambda>s. s) sample_pr sample_raws [] [] (u ''open'')
       = Inr (doc_prefix sample_pr @ u ''open'' @ doc_suffix (\<lambda>s. s) sample_threads [] [])
   \<and> format_pr (\<lambda>s. s) sample_pr sample_raws [] [] []
       = Inr (doc_prefix sample_pr @ doc_suffix (\<lambda>s. s) sample_threads [] [])
   \<and> format_pr (\<lambda>s. s) sample_pr sample_raws [] [] (u ''all'')
       = Inr (doc_prefix sample_pr @ u ''all'' @ doc_suffix (\<lambda>s. s) sample_threads [] [])
   \<and> doc_prefix sample_pr
       = u ''# PR #7: Fix parser'' @ nl @ nl @ u ''- **Repository:** octo/demo'' @ nl
         @ u ''- **Author:** @alice'' @ nl @ u ''- **State:** open'' @ nl
         @ u ''- **Branch:** `fix` '' @ right_arrow @ u '' `main`'' @ nl
         @ u ''- **URL:** https://example.org/octo/demo/pull/7'' @ nl @ u ''- **Filter:** ''"
proof -
  have a: "format_pr (\<lambda>s. s) sample_pr sample_raws [] [] (u ''open'')
       = Inr (doc_prefix sample_pr @ u ''open'' @ doc_suffix (\<lambda>s. s) sample_threads [] [])"
    using other_modes_render_all [of sample_raws "\<lambda>s. s" sample_pr "[]" "[]" "u ''open''"]
      build_threads_sample open_neq_unresolved(1) by blast
  have b: "format_pr (\<lambda>s. s) sample_pr sample_raws [] [] []
       = Inr (doc_prefix sample_pr @ [] @ doc_suffix (\<lambda>s. s) sample_threads [] [])"
    using other_modes_render_all [of sample_raws "\<lambda>s. s" sample_pr "[]" "[]" "[]"]
      build_threads_sample open_neq_unresolved(2) by blast
  have c: "format_pr (\<lambda>s. s) sample_pr sample_raws [] [] (u ''all'')
       = Inr (doc_prefix sample_pr @ u ''all'' @ doc_suffix (\<lambda>s. s) sample_threads [] [])"
    using other_modes_render_all [of sample_raws "\<lambda>s. s" sample_pr "[]" "[]" "u ''all''"]
      build_threads_sample u_all_neq_unresolved by blast
  have d: "doc_prefix sample_pr
       = u ''# PR #7: Fix parser'' @ nl @ nl @ u ''- **Repository:** octo/demo'' @ nl
         @ u ''- **Author:** @alice'' @ nl @ u ''- **State:** open'' @ nl
         @ u ''- **Branch:** `fix` '' @ right_arrow @ u '' `main`'' @ nl
         @ u ''- **URL:** https://example.org/octo/demo/pull/7'' @ nl @ u ''- **Filter:** ''"
    by (simp add: doc_prefix_def header_lines_def sample_pr_def str_int_digits u_def)
  from build_threads_sample open_neq_unresolved(1) a b c d show ?thesis
    by (simp only: append_Nil simp_thms)
qed

end
